theory Spec2Isabelle
  imports Main
begin

section \<open>Events list (App.js, EventsList)\<close>

text \<open>
  An event object as the backend sends it and as EventCard reads it. The JavaScript
  field \<^verbatim>\<open>id\<close> is named \<open>ev_id\<close> here (\<open>id\<close> is the identity function of HOL); all
  other fields keep their names. Objects are open in JavaScript: the functions below are
  stated over the record scheme, so an event may carry further fields, which the object
  spread \<^verbatim>\<open>{...event, available_seats: v}\<close> copies like the declared ones.
\<close>

record event =
  ev_id :: int
  title :: string
  description :: string
  venue :: string
  date :: string
  price :: int
  total_seats :: int
  available_seats :: int
  created_by :: string

text \<open>
  The payload of a \<^verbatim>\<open>seats_updated\<close> push event: \<^verbatim>\<open>data.event_id\<close>,
  \<^verbatim>\<open>data.available_seats\<close> and \<^verbatim>\<open>data.total_seats\<close> (the prefix keeps the names apart
  from the event's own fields).
\<close>

record seats_payload =
  su_event_id :: int
  su_available_seats :: int
  su_total_seats :: int

text \<open>The state of the EventsList component that the handlers read and write.\<close>

record 'a events_list =
  events :: "'a event_scheme list"
  loading :: bool
  showCreateForm :: bool

text \<open>\<^verbatim>\<open>useState([])\<close>, \<^verbatim>\<open>useState(true)\<close>, \<^verbatim>\<open>useState(false)\<close>.\<close>

definition events_list_init :: "'a events_list" where
  "events_list_init = \<lparr>events = [], loading = True, showCreateForm = False\<rparr>"

text \<open>
  \<^verbatim>\<open>fetchEvents\<close>: the response of \<^verbatim>\<open>GET /events\<close> is either an error (caught and
  logged) or the collection, which replaces the snapshot; \<^verbatim>\<open>finally\<close> clears
  \<open>loading\<close> on both paths.
\<close>

definition fetchEvents :: "string + 'a event_scheme list \<Rightarrow> 'a events_list \<Rightarrow> 'a events_list" where
  "fetchEvents response st =
     (case response of
        Inr data \<Rightarrow> st\<lparr>events := data, loading := False\<rparr>
      | Inl err \<Rightarrow> st\<lparr>loading := False\<rparr>)"

text \<open>
  The \<^verbatim>\<open>new_event\<close> handler: \<^verbatim>\<open>setEvents(prev => [eventData, ...prev])\<close>.
\<close>

definition new_event_handler :: "'a event_scheme \<Rightarrow> 'a events_list \<Rightarrow> 'a events_list" where
  "new_event_handler eventData st = st\<lparr>events := eventData # events st\<rparr>"

text \<open>
  The \<^verbatim>\<open>seats_updated\<close> handler:
  \<^verbatim>\<open>setEvents(prev => prev.map(event => event.id === data.event_id
       ? { ...event, available_seats: data.available_seats } : event))\<close>.
\<close>

definition seats_updated_handler :: "seats_payload \<Rightarrow> 'a events_list \<Rightarrow> 'a events_list" where
  "seats_updated_handler data st =
     st\<lparr>events :=
          map (\<lambda>event. if ev_id event = su_event_id data
                        then event\<lparr>available_seats := su_available_seats data\<rparr>
                        else event)
              (events st)\<rparr>"

section \<open>Notification bar (NotificationBar.js)\<close>

text \<open>
  A template literal prints a number in decimal; \<open>number_string\<close> is that conversion
  for the integers the payloads carry.
\<close>

definition digit :: "nat \<Rightarrow> char" where
  "digit d = char_of (48 + d)"

fun decimal :: "nat \<Rightarrow> string" where
  "decimal n = (if 10 \<le> n then decimal (n div 10) @ [digit (n mod 10)] else [digit n])"

definition number_string :: "int \<Rightarrow> string" where
  "number_string i = (if 0 \<le> i then decimal (nat i) else CHR ''-'' # decimal (nat (- i)))"

text \<open>
  A notification: \<^verbatim>\<open>{id, type, message, timestamp}\<close>. The fields \<^verbatim>\<open>id\<close> and
  \<^verbatim>\<open>type\<close> are named \<open>n_id\<close> and \<open>n_type\<close>; the three values of \<^verbatim>\<open>type\<close> are
  the strings \<^verbatim>\<open>'new_event'\<close>, \<^verbatim>\<open>'booking'\<close> and \<^verbatim>\<open>'seats'\<close>. Times are
  milliseconds, as \<^verbatim>\<open>Date.now()\<close> counts them.
\<close>

datatype notification_type = T_new_event | T_booking | T_seats

record notification =
  n_id :: int
  n_type :: notification_type
  message :: string
  timestamp :: int

text \<open>The payload of \<^verbatim>\<open>booking_update\<close>, and the four push events the bar listens to.\<close>

record booking_payload =
  booked_by :: string
  seats_booked :: int
  event_title :: string

datatype 'a push_event =
    Users_online int
  | New_event "'a event_scheme"
  | Booking_update booking_payload
  | Seats_updated seats_payload

text \<open>
  The component's state (\<open>notifications\<close>, \<open>onlineUsers\<close>) together with the part of the
  browser it uses: the current time \<open>clock\<close>, which \<^verbatim>\<open>Date.now()\<close> and
  \<^verbatim>\<open>new Date()\<close> read, and the pending \<^verbatim>\<open>setTimeout\<close> callbacks \<open>timers\<close>, each a pair
  of its due time and the identifier its closure passes to \<open>removeNotification\<close>, in the
  order they were scheduled.
\<close>

record notification_bar =
  notifications :: "notification list"
  onlineUsers :: int
  timers :: "(int \<times> int) list"
  clock :: int

definition nb_init :: "int \<Rightarrow> notification_bar" where
  "nb_init t0 = \<lparr>notifications = [], onlineUsers = 0, timers = [], clock = t0\<rparr>"

text \<open>\<^verbatim>\<open>setNotifications(prev => prev.filter(n => n.id !== id))\<close>.\<close>

definition removeNotification :: "int \<Rightarrow> notification_bar \<Rightarrow> notification_bar" where
  "removeNotification i st =
     st\<lparr>notifications := filter (\<lambda>n. n_id n \<noteq> i) (notifications st)\<rparr>"

text \<open>
  \<^verbatim>\<open>setNotifications(prev => [notification, ...prev].slice(0, 5))\<close>, then
  \<^verbatim>\<open>setTimeout(() => removeNotification(notification.id), 5000)\<close>: the timer is due
  5000 ms after the time of this call.
\<close>

definition addNotification :: "notification \<Rightarrow> notification_bar \<Rightarrow> notification_bar" where
  "addNotification notification st =
     st\<lparr>notifications := take 5 (notification # notifications st),
        timers := timers st @ [(clock st + 5000, n_id notification)]\<rparr>"

text \<open>
  The four handlers registered in \<^verbatim>\<open>useEffect\<close>. \<^verbatim>\<open>users_online\<close> only stores the
  count. The other three build a notification and add it, and read the clock three
  times on the way: \<^verbatim>\<open>Date.now()\<close> for \<^verbatim>\<open>id\<close>, then \<^verbatim>\<open>new Date()\<close> for
  \<^verbatim>\<open>timestamp\<close>, then \<^verbatim>\<open>setTimeout\<close> inside \<open>addNotification\<close>. The clock may move
  between the reads: \<open>d1\<close> milliseconds pass between the first and the second, \<open>d2\<close>
  between the second and the call of \<open>addNotification\<close>.
\<close>

fun on_push :: "nat \<Rightarrow> nat \<Rightarrow> 'a push_event \<Rightarrow> notification_bar \<Rightarrow> notification_bar" where
  "on_push d1 d2 (Users_online count) st = st\<lparr>onlineUsers := count\<rparr>"
| "on_push d1 d2 (New_event eventData) st =
     addNotification
       \<lparr>n_id = clock st, n_type = T_new_event,
        message = ''New event: '' @ title eventData @ '' by '' @ created_by eventData,
        timestamp = clock st + int d1\<rparr>
       (st\<lparr>clock := clock st + int d1 + int d2\<rparr>)"
| "on_push d1 d2 (Booking_update data) st =
     addNotification
       \<lparr>n_id = clock st, n_type = T_booking,
        message = booked_by data @ '' booked '' @ number_string (seats_booked data)
                  @ '' seat(s) for '' @ event_title data,
        timestamp = clock st + int d1\<rparr>
       (st\<lparr>clock := clock st + int d1 + int d2\<rparr>)"
| "on_push d1 d2 (Seats_updated data) st =
     addNotification
       \<lparr>n_id = clock st, n_type = T_seats,
        message = ''Seats update: '' @ number_string (su_available_seats data) @ ''/''
                  @ number_string (su_total_seats data) @ '' available for Event #''
                  @ number_string (su_event_id data),
        timestamp = clock st + int d1\<rparr>
       (st\<lparr>clock := clock st + int d1 + int d2\<rparr>)"

text \<open>
  A click on the \<open>k\<close>-th notification of the list:
  \<^verbatim>\<open>onClick={() => removeNotification(notification.id)}\<close>.
\<close>

definition click :: "nat \<Rightarrow> notification_bar \<Rightarrow> notification_bar" where
  "click k st =
     (if k < length (notifications st)
      then removeNotification (n_id (notifications st ! k)) st
      else st)"

text \<open>
  Time passes: the clock moves on, and nothing else happens.
\<close>

definition advance :: "nat \<Rightarrow> notification_bar \<Rightarrow> notification_bar" where
  "advance d st = st\<lparr>clock := clock st + int d\<rparr>"

text \<open>
  The event loop runs a timer callback: the one scheduled first, provided its due time
  is reached. \<^verbatim>\<open>setTimeout\<close> promises no more than that a callback does not run before
  its delay has passed, so a due timer may still be pending; the callbacks all have the
  same delay, so they come due in the order they were scheduled.
\<close>

definition run_timer :: "notification_bar \<Rightarrow> notification_bar" where
  "run_timer st =
     (case timers st of
        [] \<Rightarrow> st
      | t # rest \<Rightarrow>
          if fst t \<le> clock st then removeNotification (snd t) (st\<lparr>timers := rest\<rparr>) else st)"

text \<open>
  Everything that can happen to the bar: a handler runs on a push event (with the two
  delays between its clock reads), the user clicks a notification, time passes, or a
  due timer callback runs. \<open>Push p\<close> is a handler that runs within one millisecond.
\<close>

datatype 'a nb_action =
    Handle nat nat "'a push_event"
  | Click nat
  | Advance nat
  | Run_timer

abbreviation Push :: "'a push_event \<Rightarrow> 'a nb_action" where
  "Push p \<equiv> Handle 0 0 p"

fun nb_step :: "'a nb_action \<Rightarrow> notification_bar \<Rightarrow> notification_bar" where
  "nb_step (Handle d1 d2 p) st = on_push d1 d2 p st"
| "nb_step (Click k) st = click k st"
| "nb_step (Advance d) st = advance d st"
| "nb_step Run_timer st = run_timer st"

definition nb_run :: "'a nb_action list \<Rightarrow> notification_bar \<Rightarrow> notification_bar" where
  "nb_run acts st = fold nb_step acts st"

text \<open>
  What the component returns for React to display: the online indicator, and one
  element per notification of the state, in order, with \<^verbatim>\<open>key={notification.id}\<close>,
  the class name built from the type, and the message as its text.
\<close>

fun type_name :: "notification_type \<Rightarrow> string" where
  "type_name T_new_event = ''new_event''"
| "type_name T_booking = ''booking''"
| "type_name T_seats = ''seats''"

record notification_element =
  react_key :: int
  className :: string
  content :: string

record bar_view =
  online_indicator :: string
  notifications_list :: "notification_element list"

definition render_NotificationBar :: "notification_bar \<Rightarrow> bar_view" where
  "render_NotificationBar st =
     \<lparr>online_indicator = number_string (onlineUsers st) @ '' users online'',
      notifications_list =
        map (\<lambda>notification.
               \<lparr>react_key = n_id notification,
                className = ''notification notification-'' @ type_name (n_type notification),
                content = message notification\<rparr>)
            (notifications st)\<rparr>"

text \<open>
  The invariant of the timers: every notification in the state still has a pending
  timer that carries its identifier.
\<close>

definition nb_inv :: "notification_bar \<Rightarrow> bool" where
  "nb_inv st \<longleftrightarrow> (\<forall>n \<in> set (notifications st). n_id n \<in> snd ` set (timers st))"

section \<open>Booking and payment (App.js, EventCard; PaymentForm.js, CheckoutForm)\<close>

text \<open>
  The logged-in user of the auth context; \<open>None\<close> is \<^verbatim>\<open>user === null\<close>, no
  authenticated session.
\<close>

record user =
  username :: string

text \<open>
  The state of one EventCard: \<^verbatim>\<open>useState(false)\<close>, \<^verbatim>\<open>useState(1)\<close>,
  \<^verbatim>\<open>useState('')\<close>, \<^verbatim>\<open>useState(false)\<close>.
\<close>

record event_card =
  booking :: bool
  seats :: int
  error :: string
  showPayment :: bool

definition event_card_init :: event_card where
  "event_card_init = \<lparr>booking = False, seats = 1, error = [], showPayment = False\<rparr>"

text \<open>
  \<^verbatim>\<open>handleBooking\<close>: without a user it stores the message and returns; with one it
  opens the payment form. It sends no request.
\<close>

definition handleBooking :: "user option \<Rightarrow> event_card \<Rightarrow> event_card" where
  "handleBooking usr c =
     (if usr = None then c\<lparr>error := ''Please login to book''\<rparr>
      else c\<lparr>showPayment := True\<rparr>)"

text \<open>
  The state of CheckoutForm: \<^verbatim>\<open>error\<close> (\<^verbatim>\<open>null\<close> or a message; named
  \<open>checkout_error\<close> here) and \<^verbatim>\<open>processing\<close>.
\<close>

record checkout_form =
  checkout_error :: "string option"
  processing :: bool

definition checkout_form_init :: checkout_form where
  "checkout_form_init = \<lparr>checkout_error = None, processing = False\<rparr>"

text \<open>
  What \<^verbatim>\<open>handleSubmit\<close> does to the outside, in the order it does it: the two POST
  requests, the call of the payment widget, and the \<^verbatim>\<open>onSuccess\<close> callback.
\<close>

datatype effect =
    Post_create_payment_intent int int
  | Confirm_card_payment string
  | Post_confirm_payment int
  | On_success int

text \<open>
  What the outside answers. A rejected promise is \<open>Inl\<close> of the error's
  \<^verbatim>\<open>response?.data?.detail\<close> (\<open>None\<close> when the chain is undefined). The intent
  request resolves to \<^verbatim>\<open>{client_secret, booking_id}\<close>; the widget resolves to a result
  with or without \<^verbatim>\<open>error\<close>, whose \<^verbatim>\<open>message\<close> is the processor's text.
\<close>

record intent_data =
  client_secret :: string
  booking_id :: int

datatype card_result = Card_error string | Card_paid

record responses =
  intent_response :: "string option + intent_data"
  card_response :: "string option + card_result"
  confirm_response :: "string option + unit"

text \<open>
  The \<^verbatim>\<open>catch\<close> block's \<^verbatim>\<open>err.response?.data?.detail || 'Payment failed'\<close>: an
  undefined or empty detail gives the default.
\<close>

definition caught_message :: "string option \<Rightarrow> string" where
  "caught_message err =
     (case err of
        None \<Rightarrow> ''Payment failed''
      | Some detail \<Rightarrow> if detail = [] then ''Payment failed'' else detail)"

text \<open>
  \<^verbatim>\<open>handleSubmit\<close> of CheckoutForm, run to its end: the form's final state and the
  effects issued. \<open>stripe_ready\<close> is \<^verbatim>\<open>stripe && elements\<close>; \<open>seat_count\<close> is the
  \<^verbatim>\<open>seats\<close> prop. Every path through \<^verbatim>\<open>try\<close> ends in \<^verbatim>\<open>finally\<close>, which clears
  \<open>processing\<close>.
\<close>

definition handleSubmit ::
  "bool \<Rightarrow> 'a event_scheme \<Rightarrow> int \<Rightarrow> responses \<Rightarrow> checkout_form
     \<Rightarrow> checkout_form \<times> effect list" where
  "handleSubmit stripe_ready event seat_count rs st =
     (if \<not> stripe_ready then (st, [])
      else
        let started = st\<lparr>processing := True, checkout_error := None\<rparr>;
            caught = (\<lambda>err. started\<lparr>checkout_error := Some (caught_message err),
                                     processing := False\<rparr>);
            intent = Post_create_payment_intent (ev_id event) seat_count
        in case intent_response rs of
             Inl err \<Rightarrow> (caught err, [intent])
           | Inr data \<Rightarrow>
               let confirm_card = Confirm_card_payment (client_secret data) in
               (case card_response rs of
                  Inl err \<Rightarrow> (caught err, [intent, confirm_card])
                | Inr (Card_error msg) \<Rightarrow>
                    (started\<lparr>checkout_error := Some msg, processing := False\<rparr>,
                     [intent, confirm_card])
                | Inr Card_paid \<Rightarrow>
                    let confirm = Post_confirm_payment (booking_id data) in
                    (case confirm_response rs of
                       Inl err \<Rightarrow> (caught err, [intent, confirm_card, confirm])
                     | Inr u \<Rightarrow>
                         (started\<lparr>processing := False\<rparr>,
                          [intent, confirm_card, confirm, On_success (booking_id data)]))))"

text \<open>
  An EventCard together with the CheckoutForm it mounts while \<open>showPayment\<close> holds.
\<close>

record booking_flow =
  card_state :: event_card
  form_state :: checkout_form

definition booking_flow_init :: booking_flow where
  "booking_flow_init = \<lparr>card_state = event_card_init, form_state = checkout_form_init\<rparr>"

text \<open>
  What EventCard renders. With \<open>showPayment\<close> it returns the payment form alone: the
  error message (\<^verbatim>\<open>{error && ...}\<close>, so only a non-empty one) and whether the Pay
  button is disabled. Otherwise it returns the card: the booking section with the seat
  selector and the Book button (\<^verbatim>\<open>user && event.available_seats > 0\<close>), the error text
  inside that section, the login prompt (\<^verbatim>\<open>!user\<close>), and the sold-out mark.
\<close>

record payment_view =
  error_message_shown :: "string option"
  pay_disabled :: bool

record card_view =
  booking_section :: bool
  book_disabled :: bool
  error_text :: "string option"
  login_prompt :: bool
  sold_out :: bool

datatype view = Payment_form payment_view | Event_card card_view

definition render :: "user option \<Rightarrow> 'a event_scheme \<Rightarrow> bool \<Rightarrow> booking_flow \<Rightarrow> view" where
  "render usr event stripe_ready fl =
     (if showPayment (card_state fl)
      then Payment_form
             \<lparr>error_message_shown =
                (case checkout_error (form_state fl) of
                   None \<Rightarrow> None
                 | Some msg \<Rightarrow> if msg = [] then None else Some msg),
              pay_disabled = (\<not> stripe_ready \<or> processing (form_state fl))\<rparr>
      else Event_card
             \<lparr>booking_section = (usr \<noteq> None \<and> 0 < available_seats event),
              book_disabled = booking (card_state fl),
              error_text =
                (if usr \<noteq> None \<and> 0 < available_seats event \<and> error (card_state fl) \<noteq> []
                 then Some (error (card_state fl)) else None),
              login_prompt = (usr = None),
              sold_out = (available_seats event = 0)\<rparr>)"

text \<open>Seat selection is the card with its booking section; the payment form is not.\<close>

definition is_seat_selection :: "view \<Rightarrow> bool" where
  "is_seat_selection v = (case v of Event_card cv \<Rightarrow> booking_section cv | Payment_form pv \<Rightarrow> False)"

definition is_payment_form :: "view \<Rightarrow> bool" where
  "is_payment_form v = (case v of Event_card cv \<Rightarrow> False | Payment_form pv \<Rightarrow> True)"

text \<open>
  What the user can do to the card. Each control acts only while it is rendered and
  enabled: the Book button and the seat input in the booking section, the Pay and
  Cancel buttons in the payment form. Opening the payment form mounts a fresh
  CheckoutForm. \<^verbatim>\<open>onSuccess\<close> and \<^verbatim>\<open>onCancel\<close> are the only callbacks that close it
  (\<^verbatim>\<open>setShowPayment(false)\<close>).
\<close>

datatype flow_action =
    Click_book
  | Change_seats int
  | Submit_payment bool responses
  | Cancel_payment

fun is_on_success :: "effect \<Rightarrow> bool" where
  "is_on_success (On_success b) = True"
| "is_on_success other = False"

fun is_post_confirm_payment :: "effect \<Rightarrow> bool" where
  "is_post_confirm_payment (Post_confirm_payment b) = True"
| "is_post_confirm_payment other = False"

fun flow_step ::
  "user option \<Rightarrow> 'a event_scheme \<Rightarrow> flow_action \<Rightarrow> booking_flow
     \<Rightarrow> booking_flow \<times> effect list" where
  "flow_step usr event Click_book fl =
     (if \<not> showPayment (card_state fl) \<and> usr \<noteq> None \<and> 0 < available_seats event
         \<and> \<not> booking (card_state fl)
      then (fl\<lparr>card_state := handleBooking usr (card_state fl),
               form_state := checkout_form_init\<rparr>, [])
      else (fl, []))"
| "flow_step usr event (Change_seats n) fl =
     (if \<not> showPayment (card_state fl) \<and> usr \<noteq> None \<and> 0 < available_seats event
      then (fl\<lparr>card_state := (card_state fl)\<lparr>seats := n\<rparr>\<rparr>, [])
      else (fl, []))"
| "flow_step usr event (Submit_payment stripe_ready rs) fl =
     (if showPayment (card_state fl) \<and> stripe_ready \<and> \<not> processing (form_state fl)
      then
        let (form', effects) =
              handleSubmit stripe_ready event (seats (card_state fl)) rs (form_state fl)
        in (fl\<lparr>form_state := form',
               card_state := (if list_ex is_on_success effects
                              then (card_state fl)\<lparr>showPayment := False\<rparr>
                              else card_state fl)\<rparr>,
            effects)
      else (fl, []))"
| "flow_step usr event Cancel_payment fl =
     (if showPayment (card_state fl)
      then (fl\<lparr>card_state := (card_state fl)\<lparr>showPayment := False\<rparr>\<rparr>, [])
      else (fl, []))"

text \<open>A run of user actions, with the effects of all of them in order.\<close>

fun flow_run ::
  "user option \<Rightarrow> 'a event_scheme \<Rightarrow> flow_action list \<Rightarrow> booking_flow
     \<Rightarrow> booking_flow \<times> effect list" where
  "flow_run usr event [] fl = (fl, [])"
| "flow_run usr event (a # acts) fl =
     (let (fl', effects) = flow_step usr event a fl;
          (fl'', effects') = flow_run usr event acts fl'
      in (fl'', effects @ effects'))"

section \<open>Socket service (services/socketService.js)\<close>

text \<open>
  Callbacks are compared by identity. The three arrow functions that \<^verbatim>\<open>connect\<close>
  registers only log; every other callback is one of the application's, named by a
  value of \<open>'h\<close>.
\<close>

datatype 'h callback = Log_connected | Log_disconnected | Log_error | App_handler 'h

text \<open>The three announcements the service emits.\<close>

datatype announcement =
    Authenticate string
  | Join_event_room int
  | Leave_event_room int

text \<open>
  A socket object of the socket library, as far as the service uses it: the handlers
  registered with \<^verbatim>\<open>socket.on\<close> in registration order, the messages passed to
  \<^verbatim>\<open>socket.emit\<close>, and whether \<^verbatim>\<open>socket.disconnect()\<close> has been called on it.
  \<^verbatim>\<open>io(url, options)\<close> returns a new socket with no handler.
\<close>

record 'h socket_object =
  handlers :: "(string \<times> 'h callback) list"
  emitted :: "announcement list"
  disconnected :: bool

definition io :: "'h socket_object" where
  "io = \<lparr>handlers = [], emitted = [], disconnected = False\<rparr>"

definition socket_on :: "string \<Rightarrow> 'h callback \<Rightarrow> 'h socket_object \<Rightarrow> 'h socket_object" where
  "socket_on ev cb s = s\<lparr>handlers := handlers s @ [(ev, cb)]\<rparr>"

definition socket_emit :: "announcement \<Rightarrow> 'h socket_object \<Rightarrow> 'h socket_object" where
  "socket_emit m s = s\<lparr>emitted := emitted s @ [m]\<rparr>"

definition socket_disconnect :: "'h socket_object \<Rightarrow> 'h socket_object" where
  "socket_disconnect s = s\<lparr>disconnected := True\<rparr>"

text \<open>
  The service, and the socket objects it has created. \<open>heap\<close> holds every socket
  object \<^verbatim>\<open>io\<close> has returned, at the address it was allocated; \<open>socket\<close> is
  \<^verbatim>\<open>this.socket\<close>, \<^verbatim>\<open>null\<close> or the address of one of them; \<open>listeners\<close> is
  \<^verbatim>\<open>this.listeners\<close>, which the constructor sets to the empty object and no method
  touches.
\<close>

record 'h socket_service =
  heap :: "'h socket_object list"
  socket :: "nat option"
  listeners :: "(string \<times> 'h callback) list"

definition socket_service_init :: "'h socket_service" where
  "socket_service_init = \<lparr>heap = [], socket = None, listeners = []\<rparr>"

text \<open>A method call on the socket object at address \<open>a\<close>.\<close>

definition on_socket ::
  "nat \<Rightarrow> ('h socket_object \<Rightarrow> 'h socket_object) \<Rightarrow> 'h socket_service \<Rightarrow> 'h socket_service" where
  "on_socket a f svc =
     (if a < length (heap svc) then svc\<lparr>heap := (heap svc)[a := f (heap svc ! a)]\<rparr> else svc)"

text \<open>
  \<^verbatim>\<open>connect\<close>: only when \<^verbatim>\<open>this.socket\<close> is null it creates a socket and registers the
  three logging handlers; it returns \<^verbatim>\<open>this.socket\<close>.
\<close>

definition connect :: "'h socket_service \<Rightarrow> nat \<times> 'h socket_service" where
  "connect svc =
     (case socket svc of
        None \<Rightarrow>
          let a = length (heap svc);
              s = socket_on ''error'' Log_error
                    (socket_on ''disconnect'' Log_disconnected
                      (socket_on ''connect'' Log_connected io))
          in (a, svc\<lparr>heap := heap svc @ [s], socket := Some a\<rparr>)
      | Some a \<Rightarrow> (a, svc))"

definition authenticate :: "string \<Rightarrow> 'h socket_service \<Rightarrow> 'h socket_service" where
  "authenticate name svc =
     (case socket svc of
        Some a \<Rightarrow> on_socket a (socket_emit (Authenticate name)) svc
      | None \<Rightarrow> svc)"

definition joinEventRoom :: "int \<Rightarrow> 'h socket_service \<Rightarrow> 'h socket_service" where
  "joinEventRoom eventId svc =
     (case socket svc of
        Some a \<Rightarrow> on_socket a (socket_emit (Join_event_room eventId)) svc
      | None \<Rightarrow> svc)"

definition leaveEventRoom :: "int \<Rightarrow> 'h socket_service \<Rightarrow> 'h socket_service" where
  "leaveEventRoom eventId svc =
     (case socket svc of
        Some a \<Rightarrow> on_socket a (socket_emit (Leave_event_room eventId)) svc
      | None \<Rightarrow> svc)"

definition disconnect :: "'h socket_service \<Rightarrow> 'h socket_service" where
  "disconnect svc =
     (case socket svc of
        Some a \<Rightarrow> (on_socket a socket_disconnect svc)\<lparr>socket := None\<rparr>
      | None \<Rightarrow> svc)"

definition on :: "string \<Rightarrow> 'h callback \<Rightarrow> 'h socket_service \<Rightarrow> 'h socket_service" where
  "on ev cb svc =
     (case socket svc of
        Some a \<Rightarrow> on_socket a (socket_on ev cb) svc
      | None \<Rightarrow> svc)"

text \<open>
  \<^verbatim>\<open>off\<close> passes its two arguments to \<^verbatim>\<open>socket.off\<close>. What the library's
  \<^verbatim>\<open>off\<close> removes from the handler table is not part of this repository; it is the
  parameter \<open>socket_off\<close>, given the event name, the callback (\<open>None\<close> when the caller
  passes none, as the components' cleanups do) and the table.
\<close>

type_synonym 'h socket_off =
  "string \<Rightarrow> 'h callback option \<Rightarrow> (string \<times> 'h callback) list \<Rightarrow> (string \<times> 'h callback) list"

definition off ::
  "'h socket_off \<Rightarrow> string \<Rightarrow> 'h callback option \<Rightarrow> 'h socket_service \<Rightarrow> 'h socket_service" where
  "off socket_off ev cb svc =
     (case socket svc of
        Some a \<Rightarrow> on_socket a (\<lambda>s. s\<lparr>handlers := socket_off ev cb (handlers s)\<rparr>) svc
      | None \<Rightarrow> svc)"

text \<open>The calls the application can make on the service, and a sequence of them.\<close>

datatype 'h service_call =
    Connect
  | Call_authenticate string
  | Call_joinEventRoom int
  | Call_leaveEventRoom int
  | Disconnect
  | On string "'h callback"
  | Off string "'h callback option"

fun service_step :: "'h socket_off \<Rightarrow> 'h service_call \<Rightarrow> 'h socket_service \<Rightarrow> 'h socket_service" where
  "service_step socket_off Connect svc = snd (connect svc)"
| "service_step socket_off (Call_authenticate name) svc = authenticate name svc"
| "service_step socket_off (Call_joinEventRoom eventId) svc = joinEventRoom eventId svc"
| "service_step socket_off (Call_leaveEventRoom eventId) svc = leaveEventRoom eventId svc"
| "service_step socket_off Disconnect svc = disconnect svc"
| "service_step socket_off (On ev cb) svc = on ev cb svc"
| "service_step socket_off (Off ev cb) svc = off socket_off ev cb svc"

definition service_run ::
  "'h socket_off \<Rightarrow> 'h service_call list \<Rightarrow> 'h socket_service \<Rightarrow> 'h socket_service" where
  "service_run socket_off calls svc = fold (service_step socket_off) calls svc"

text \<open>
  The underlying connections that exist: the socket objects created and not
  disconnected. The callbacks an inbound event named \<open>ev\<close> invokes: those registered
  under that name on such a socket.
\<close>

definition connections :: "'h socket_service \<Rightarrow> 'h socket_object list" where
  "connections svc = filter (\<lambda>s. \<not> disconnected s) (heap svc)"

definition invoked :: "string \<Rightarrow> 'h socket_service \<Rightarrow> 'h callback list" where
  "invoked ev svc =
     concat (map (\<lambda>s. map snd (filter (\<lambda>h. fst h = ev) (handlers s))) (connections svc))"

text \<open>
  The invariant of the service: \<^verbatim>\<open>this.socket\<close> points into the heap, and every
  other socket object has been disconnected.
\<close>

definition service_inv :: "'h socket_service \<Rightarrow> bool" where
  "service_inv svc \<longleftrightarrow>
     (case socket svc of
        None \<Rightarrow> list_all disconnected (heap svc)
      | Some a \<Rightarrow>
          a < length (heap svc)
          \<and> list_all disconnected (take a (heap svc))
          \<and> list_all disconnected (drop (Suc a) (heap svc)))"

section \<open>Properties of the events list\<close>

lemma seats_updated_length:
  "length (events (seats_updated_handler data st)) = length (events st)"
  by (simp add: seats_updated_handler_def)

lemma seats_updated_nth:
  assumes "i < length (events st)"
  shows "events (seats_updated_handler data st) ! i =
           (if ev_id (events st ! i) = su_event_id data
            then (events st ! i)\<lparr>available_seats := su_available_seats data\<rparr>
            else events st ! i)"
  using assms by (simp add: seats_updated_handler_def)

lemma seats_updated_ids:
  "map ev_id (events (seats_updated_handler data st)) = map ev_id (events st)"
  by (simp add: seats_updated_handler_def)

text \<open>
  C1. A \<^verbatim>\<open>seats_updated\<close> event whose identifier matches no entry of the collection
  leaves the whole component state as it was: the collection is the same list (no entry
  created, none modified). The handler is a total function with no raising branch, so
  it returns on every such input.
\<close>

theorem seats_updated_unknown_id_noop:
  assumes "su_event_id data \<notin> ev_id ` set (events st)"
  shows "seats_updated_handler data st = st"
proof -
  have "map (\<lambda>event. if ev_id event = su_event_id data
                      then event\<lparr>available_seats := su_available_seats data\<rparr>
                      else event) (events st) = events st"
    using assms by (intro map_idI) force
  then show ?thesis
    by (simp add: seats_updated_handler_def)
qed

text \<open>
  The scenario for C1: the snapshot holds the events 1 and 2, the push event names
  event 9.
\<close>

theorem seats_updated_unknown_id_noop_witness:
  "su_event_id \<lparr>su_event_id = 9, su_available_seats = 0, su_total_seats = 10\<rparr>
     \<notin> ev_id ` set (events
        \<lparr>events =
           [\<lparr>ev_id = 1, title = ''Jazz'', description = ''Trio'', venue = ''Hall'',
             date = ''2025-01-01'', price = 20, total_seats = 5, available_seats = 3,
             created_by = ''ann''\<rparr>,
            \<lparr>ev_id = 2, title = ''Rock'', description = ''Band'', venue = ''Club'',
             date = ''2025-02-01'', price = 0, total_seats = 8, available_seats = 8,
             created_by = ''bob''\<rparr>],
         loading = False, showCreateForm = False\<rparr>)
   \<and> seats_updated_handler
        \<lparr>su_event_id = 9, su_available_seats = 0, su_total_seats = 10\<rparr>
        \<lparr>events =
           [\<lparr>ev_id = 1, title = ''Jazz'', description = ''Trio'', venue = ''Hall'',
             date = ''2025-01-01'', price = 20, total_seats = 5, available_seats = 3,
             created_by = ''ann''\<rparr>,
            \<lparr>ev_id = 2, title = ''Rock'', description = ''Band'', venue = ''Club'',
             date = ''2025-02-01'', price = 0, total_seats = 8, available_seats = 8,
             created_by = ''bob''\<rparr>],
         loading = False, showCreateForm = False\<rparr>
     = \<lparr>events =
           [\<lparr>ev_id = 1, title = ''Jazz'', description = ''Trio'', venue = ''Hall'',
             date = ''2025-01-01'', price = 20, total_seats = 5, available_seats = 3,
             created_by = ''ann''\<rparr>,
            \<lparr>ev_id = 2, title = ''Rock'', description = ''Band'', venue = ''Club'',
             date = ''2025-02-01'', price = 0, total_seats = 8, available_seats = 8,
             created_by = ''bob''\<rparr>],
         loading = False, showCreateForm = False\<rparr>"
proof -
  let ?d = "\<lparr>su_event_id = 9, su_available_seats = 0, su_total_seats = 10\<rparr>"
  let ?st = "\<lparr>events =
           [\<lparr>ev_id = 1, title = ''Jazz'', description = ''Trio'', venue = ''Hall'',
             date = ''2025-01-01'', price = 20, total_seats = 5, available_seats = 3,
             created_by = ''ann''\<rparr>,
            \<lparr>ev_id = 2, title = ''Rock'', description = ''Band'', venue = ''Club'',
             date = ''2025-02-01'', price = 0, total_seats = 8, available_seats = 8,
             created_by = ''bob''\<rparr>],
         loading = False, showCreateForm = False\<rparr>"
  have unknown: "su_event_id ?d \<notin> ev_id ` set (events ?st)"
    by simp
  from seats_updated_unknown_id_noop [OF unknown] unknown show ?thesis
    by simp
qed

text \<open>
  C2. Whatever the collection, a \<^verbatim>\<open>seats_updated\<close> event keeps the collection's
  length and the order of its identifiers, leaves the rest of the component state alone,
  and at every position: an entry with another identifier is the entry it was, and an
  entry with the named identifier is the old entry with only \<open>available_seats\<close>
  replaced by the payload's value (every other declared field, and whatever further
  fields the object carries, are the old ones).
\<close>

theorem seats_updated_replaces_only_available_seats:
  "length (events (seats_updated_handler data st)) = length (events st)
   \<and> map ev_id (events (seats_updated_handler data st)) = map ev_id (events st)
   \<and> loading (seats_updated_handler data st) = loading st
   \<and> showCreateForm (seats_updated_handler data st) = showCreateForm st
   \<and> (\<forall>i < length (events st).
        let e = events st ! i; e' = events (seats_updated_handler data st) ! i in
        if ev_id e = su_event_id data
        then e' = e\<lparr>available_seats := su_available_seats data\<rparr>
             \<and> available_seats e' = su_available_seats data
             \<and> ev_id e' = ev_id e \<and> title e' = title e
             \<and> description e' = description e \<and> venue e' = venue e
             \<and> date e' = date e \<and> price e' = price e
             \<and> total_seats e' = total_seats e \<and> created_by e' = created_by e
             \<and> event.more e' = event.more e
        else e' = e)"
proof -
  have "\<forall>i < length (events st).
        let e = events st ! i; e' = events (seats_updated_handler data st) ! i in
        if ev_id e = su_event_id data
        then e' = e\<lparr>available_seats := su_available_seats data\<rparr>
             \<and> available_seats e' = su_available_seats data
             \<and> ev_id e' = ev_id e \<and> title e' = title e
             \<and> description e' = description e \<and> venue e' = venue e
             \<and> date e' = date e \<and> price e' = price e
             \<and> total_seats e' = total_seats e \<and> created_by e' = created_by e
             \<and> event.more e' = event.more e
        else e' = e"
    by (simp add: seats_updated_nth Let_def)
  moreover have "loading (seats_updated_handler data st) = loading st"
    and "showCreateForm (seats_updated_handler data st) = showCreateForm st"
    by (simp_all add: seats_updated_handler_def)
  ultimately show ?thesis
    using seats_updated_length [of data st] seats_updated_ids [of data st] by blast
qed

text \<open>
  The scenario of the specification: the snapshot is \<^verbatim>\<open>[{id:1, available_seats:3}]\<close>
  (with a second event beside it), and \<^verbatim>\<open>seats_updated {event_id:1, available_seats:2}\<close>
  arrives.
\<close>

theorem seats_updated_replaces_only_available_seats_witness:
  "events (seats_updated_handler
      \<lparr>su_event_id = 1, su_available_seats = 2, su_total_seats = 5\<rparr>
      \<lparr>events =
         [\<lparr>ev_id = 1, title = ''Jazz'', description = ''Trio'', venue = ''Hall'',
           date = ''2025-01-01'', price = 20, total_seats = 5, available_seats = 3,
           created_by = ''ann''\<rparr>,
          \<lparr>ev_id = 2, title = ''Rock'', description = ''Band'', venue = ''Club'',
           date = ''2025-02-01'', price = 0, total_seats = 8, available_seats = 8,
           created_by = ''bob''\<rparr>],
       loading = False, showCreateForm = False\<rparr>)
   = [\<lparr>ev_id = 1, title = ''Jazz'', description = ''Trio'', venue = ''Hall'',
       date = ''2025-01-01'', price = 20, total_seats = 5, available_seats = 2,
       created_by = ''ann''\<rparr>,
      \<lparr>ev_id = 2, title = ''Rock'', description = ''Band'', venue = ''Club'',
       date = ''2025-02-01'', price = 0, total_seats = 8, available_seats = 8,
       created_by = ''bob''\<rparr>]"
proof -
  let ?d = "\<lparr>su_event_id = 1, su_available_seats = 2, su_total_seats = 5\<rparr>"
  let ?e1 = "\<lparr>ev_id = 1, title = ''Jazz'', description = ''Trio'', venue = ''Hall'',
           date = ''2025-01-01'', price = 20, total_seats = 5, available_seats = 3,
           created_by = ''ann''\<rparr>"
  let ?e2 = "\<lparr>ev_id = 2, title = ''Rock'', description = ''Band'', venue = ''Club'',
           date = ''2025-02-01'', price = 0, total_seats = 8, available_seats = 8,
           created_by = ''bob''\<rparr>"
  let ?st = "\<lparr>events = [?e1, ?e2], loading = False, showCreateForm = False\<rparr>"
  let ?out = "events (seats_updated_handler ?d ?st)"
  note frame = seats_updated_replaces_only_available_seats [of ?d ?st]
  from frame have len: "length ?out = 2"
    by simp
  from frame have at:
    "\<forall>i < 2. let e = [?e1, ?e2] ! i; e' = ?out ! i in
        if ev_id e = 1 then e' = e\<lparr>available_seats := 2\<rparr> else e' = e"
    by (simp add: Let_def)
  from at have "?out ! 0 = ?e1\<lparr>available_seats := 2\<rparr>"
    by (simp add: Let_def)
  moreover from at have "?out ! 1 = ?e2"
    by (simp add: Let_def)
  ultimately have "?out = [?e1\<lparr>available_seats := 2\<rparr>, ?e2]"
    using len by (intro nth_equalityI) (auto simp: less_Suc_eq numeral_2_eq_2)
  then show ?thesis
    by simp
qed

text \<open>
  C3. A \<^verbatim>\<open>new_event\<close> push event puts the new entity first and keeps the prior
  collection, of any length, unchanged behind it; the rest of the component state is
  untouched. Nothing is deduplicated: the same creation event applied twice gives the
  entity twice, and a refetch whose response already holds the entity, followed by the
  push event, gives it twice as well.
\<close>

theorem new_event_prepends_without_dedup:
  "events (new_event_handler e st) = e # events st
   \<and> hd (events (new_event_handler e st)) = e
   \<and> tl (events (new_event_handler e st)) = events st
   \<and> length (events (new_event_handler e st)) = Suc (length (events st))
   \<and> loading (new_event_handler e st) = loading st
   \<and> showCreateForm (new_event_handler e st) = showCreateForm st
   \<and> events (new_event_handler e (new_event_handler e st)) = e # e # events st
   \<and> \<not> distinct (events (new_event_handler e (new_event_handler e st)))
   \<and> events (new_event_handler e (fetchEvents (Inr (e # rest)) st)) = e # e # rest
   \<and> \<not> distinct (events (new_event_handler e (fetchEvents (Inr (e # rest)) st)))"
  by (simp add: new_event_handler_def fetchEvents_def)

text \<open>
  Over any sequence of \<^verbatim>\<open>seats_updated\<close> events, known identifiers or not, the
  collection keeps its length and its identifiers in their order: no entry is created
  and none is dropped.
\<close>

theorem seats_updated_sequence_keeps_entries:
  "map ev_id (events (fold seats_updated_handler ds st)) = map ev_id (events st)
   \<and> length (events (fold seats_updated_handler ds st)) = length (events st)"
proof (induction ds arbitrary: st)
  case Nil
  show ?case by simp
next
  case (Cons d ds)
  from Cons [of "seats_updated_handler d st"] show ?case
    by (simp add: seats_updated_ids seats_updated_length)
qed

section \<open>Properties of the notification bar\<close>

text \<open>
  The state list. \<open>addNotification\<close> slices to 5 and every other operation only
  filters, so the \<open>notifications\<close> state never holds more than 5 entries, in any state
  the bar reaches from its empty start.
\<close>

lemma length_on_push:
  "length (notifications (on_push d1 d2 p st)) \<le> max 5 (length (notifications st))"
  by (cases p) (simp_all add: addNotification_def)

lemma length_click: "length (notifications (click k st)) \<le> length (notifications st)"
  by (simp add: click_def removeNotification_def)

lemma length_run_timer:
  "length (notifications (run_timer st)) \<le> length (notifications st)"
  by (simp add: run_timer_def removeNotification_def split: list.split)

lemma length_step:
  "length (notifications (nb_step a st)) \<le> max 5 (length (notifications st))"
proof (cases a)
  case (Handle d1 d2 p)
  then show ?thesis by (simp add: length_on_push)
next
  case (Click k)
  then show ?thesis using length_click [of k st] by simp
next
  case (Advance d)
  then show ?thesis by (simp add: advance_def)
next
  case Run_timer
  then show ?thesis using length_run_timer [of st] by simp
qed

lemma length_run:
  "length (notifications (nb_run acts st)) \<le> max 5 (length (notifications st))"
  unfolding nb_run_def
proof (induction acts arbitrary: st)
  case Nil
  then show ?case by simp
next
  case (Cons a acts)
  have "length (notifications (fold nb_step acts (nb_step a st)))
          \<le> max 5 (length (notifications (nb_step a st)))"
    by (rule Cons.IH)
  also have "\<dots> \<le> max 5 (length (notifications st))"
    using length_step [of a st] by simp
  finally show ?case by simp
qed

lemma notifications_state_at_most_five:
  "length (notifications (nb_run acts (nb_init t0))) \<le> 5
   \<and> length (notifications_list (render_NotificationBar (nb_run acts (nb_init t0)))) \<le> 5"
  using length_run [of acts "nb_init t0"]
  by (simp add: nb_init_def render_NotificationBar_def)

text \<open>
  The timers. Adding schedules exactly one timer, due 5000 ms after the call and
  carrying the notification's identifier, behind the pending ones; removing a
  notification cancels no timer; a timer leaves the queue only when its callback runs,
  which is never before it is due.
\<close>

lemma timers_scheduled_and_kept:
  "timers (addNotification n st) = timers st @ [(clock st + 5000, n_id n)]
   \<and> timers (removeNotification i st) = timers st
   \<and> timers (click k st) = timers st
   \<and> timers (advance d st) = timers st
   \<and> (timers (run_timer st) = timers st
        \<or> (\<exists>t. timers st = t # timers (run_timer st) \<and> fst t \<le> clock st))"
  by (auto simp: addNotification_def removeNotification_def click_def advance_def
      run_timer_def split: list.split)

lemma nb_inv_init: "nb_inv (nb_init t0)"
  by (simp add: nb_inv_def nb_init_def)

lemma nb_inv_add:
  "nb_inv st \<Longrightarrow> nb_inv (addNotification n (st\<lparr>clock := c\<rparr>))"
  by (auto simp: nb_inv_def addNotification_def dest!: in_set_takeD)

lemma nb_inv_remove: "nb_inv st \<Longrightarrow> nb_inv (removeNotification i st)"
  by (auto simp: nb_inv_def removeNotification_def)

lemma nb_inv_run_timer:
  assumes "nb_inv st"
  shows "nb_inv (run_timer st)"
proof (cases "timers st")
  case Nil
  with assms show ?thesis by (simp add: run_timer_def)
next
  case (Cons t rest)
  show ?thesis
  proof (cases "fst t \<le> clock st")
    case True
    have "n_id n \<in> snd ` set rest"
      if "n \<in> set (notifications st)" "n_id n \<noteq> snd t" for n
    proof -
      from assms that(1) have "n_id n \<in> snd ` set (timers st)"
        by (simp add: nb_inv_def)
      with Cons that(2) show ?thesis by auto
    qed
    with Cons True show ?thesis
      by (simp add: run_timer_def nb_inv_def removeNotification_def)
  next
    case False
    with Cons assms show ?thesis by (simp add: run_timer_def)
  qed
qed

lemma nb_inv_step:
  assumes "nb_inv st"
  shows "nb_inv (nb_step a st)"
proof (cases a)
  case (Handle d1 d2 p)
  show ?thesis
  proof (cases p)
    case (Users_online c)
    with assms Handle show ?thesis by (simp add: nb_inv_def)
  qed (use assms Handle in \<open>simp_all add: nb_inv_add\<close>)
next
  case (Click k)
  with assms show ?thesis by (simp add: click_def nb_inv_remove)
next
  case (Advance d)
  with assms show ?thesis by (simp add: advance_def nb_inv_def)
next
  case Run_timer
  with assms show ?thesis by (simp add: nb_inv_run_timer)
qed

lemma notification_has_pending_timer: "nb_inv (nb_run acts (nb_init t0))"
proof -
  have "nb_inv st \<Longrightarrow> nb_inv (fold nb_step acts st)" for st
    by (induction acts arbitrary: st) (simp_all add: nb_inv_step)
  then show ?thesis
    by (simp add: nb_run_def nb_inv_init)
qed



text \<open>
  C8, evaluated on the code. A \<^verbatim>\<open>booking_update\<close> and a \<^verbatim>\<open>seats_updated\<close> event
  handled within the same millisecond give two notifications with the same \<open>n_id\<close>
  (both read \<^verbatim>\<open>Date.now()\<close>); both are displayed, and a click on the first removes
  the second as well, since \<open>removeNotification\<close> filters by identifier.
\<close>

theorem click_removes_notifications_sharing_id:
  "map n_type (notifications (nb_run
      [Push (Booking_update \<lparr>booked_by = ''ann'', seats_booked = 2, event_title = ''Jazz''\<rparr>),
       Push (Seats_updated \<lparr>su_event_id = 1, su_available_seats = 1, su_total_seats = 5\<rparr>)
         :: unit nb_action]
      (nb_init 1000))) = [T_seats, T_booking]
   \<and> map n_id (notifications (nb_run
      [Push (Booking_update \<lparr>booked_by = ''ann'', seats_booked = 2, event_title = ''Jazz''\<rparr>),
       Push (Seats_updated \<lparr>su_event_id = 1, su_available_seats = 1, su_total_seats = 5\<rparr>)
         :: unit nb_action]
      (nb_init 1000))) = [1000, 1000]
   \<and> notifications (nb_run
      [Push (Booking_update \<lparr>booked_by = ''ann'', seats_booked = 2, event_title = ''Jazz''\<rparr>),
       Push (Seats_updated \<lparr>su_event_id = 1, su_available_seats = 1, su_total_seats = 5\<rparr>),
       Click 0 :: unit nb_action]
      (nb_init 1000)) = []"
  by (simp add: nb_run_def nb_init_def addNotification_def click_def removeNotification_def)

text \<open>
  What does hold of a click: it removes the notifications that share the clicked one's
  identifier and no other, in the old order, and touches neither the timers nor the
  clock nor the user count. When the displayed identifiers are pairwise distinct, that
  is exactly the clicked notification.
\<close>

lemma click_removes_by_id:
  assumes "k < length (notifications st)"
  shows "notifications (click k st)
           = filter (\<lambda>n. n_id n \<noteq> n_id (notifications st ! k)) (notifications st)
         \<and> timers (click k st) = timers st \<and> clock (click k st) = clock st
         \<and> onlineUsers (click k st) = onlineUsers st"
  using assms by (simp add: click_def removeNotification_def)

lemma filter_neq_nth_distinct:
  assumes "distinct (map f xs)" "k < length xs"
  shows "filter (\<lambda>x. f x \<noteq> f (xs ! k)) xs = take k xs @ drop (Suc k) xs"
  using assms
proof (induction xs arbitrary: k)
  case Nil
  then show ?case by simp
next
  case (Cons x xs)
  show ?case
  proof (cases k)
    case 0
    from Cons.prems have "f x \<notin> f ` set xs"
      by simp
    then have "\<forall>y \<in> set xs. f y \<noteq> f x"
      by (metis imageI)
    then have "filter (\<lambda>y. f y \<noteq> f x) xs = xs"
      by (simp add: filter_id_conv)
    with 0 show ?thesis by simp
  next
    case (Suc j)
    with Cons.prems have "f x \<noteq> f (xs ! j)"
      by auto
    with Suc Cons show ?thesis by simp
  qed
qed

theorem click_removes_only_clicked_when_ids_distinct:
  assumes "distinct (map n_id (notifications st))" "k < length (notifications st)"
  shows "notifications (click k st)
           = take k (notifications st) @ drop (Suc k) (notifications st)"
  using assms by (simp add: click_removes_by_id filter_neq_nth_distinct)

text \<open>
  Two notifications added one millisecond apart: a click on the first leaves the second.
\<close>

theorem click_removes_only_clicked_when_ids_distinct_witness:
  "map n_id (notifications (nb_run
      [Push (Booking_update \<lparr>booked_by = ''ann'', seats_booked = 2, event_title = ''Jazz''\<rparr>),
       Advance 1,
       Push (Seats_updated \<lparr>su_event_id = 1, su_available_seats = 1, su_total_seats = 5\<rparr>)
         :: unit nb_action]
      (nb_init 1000))) = [1001, 1000]
   \<and> map n_id (notifications (click 0 (nb_run
      [Push (Booking_update \<lparr>booked_by = ''ann'', seats_booked = 2, event_title = ''Jazz''\<rparr>),
       Advance 1,
       Push (Seats_updated \<lparr>su_event_id = 1, su_available_seats = 1, su_total_seats = 5\<rparr>)
         :: unit nb_action]
      (nb_init 1000)))) = [1000]"
proof -
  let ?st = "nb_run
      [Push (Booking_update \<lparr>booked_by = ''ann'', seats_booked = 2, event_title = ''Jazz''\<rparr>),
       Advance 1,
       Push (Seats_updated \<lparr>su_event_id = 1, su_available_seats = 1, su_total_seats = 5\<rparr>)
         :: unit nb_action]
      (nb_init 1000)"
  have ids: "map n_id (notifications ?st) = [1001, 1000]"
    by (simp add: nb_run_def nb_init_def addNotification_def advance_def)
  then have "distinct (map n_id (notifications ?st))"
    by simp
  moreover from ids have "length (notifications ?st) = 2"
    by (metis length_map length_Cons list.size(3) numeral_2_eq_2)
  then have "0 < length (notifications ?st)"
    by simp
  ultimately have "notifications (click 0 ?st)
      = take 0 (notifications ?st) @ drop (Suc 0) (notifications ?st)"
    by (rule click_removes_only_clicked_when_ids_distinct)
  then have "map n_id (notifications (click 0 ?st)) = drop (Suc 0) (map n_id (notifications ?st))"
    by (simp add: drop_map)
  with ids show ?thesis
    by simp
qed

section \<open>Properties of booking and payment\<close>

lemma flow_step_no_user:
  assumes "\<not> showPayment (card_state fl)"
  shows "flow_step None event a fl = (fl, [])"
  using assms by (cases a) simp_all

lemma flow_run_no_user:
  assumes "\<not> showPayment (card_state fl)"
  shows "flow_run None event acts fl = (fl, [])"
  using assms by (induction acts) (simp_all add: flow_step_no_user)

lemma handleSubmit_card_error:
  assumes "intent_response rs = Inr data" "card_response rs = Inr (Card_error msg)"
  shows "handleSubmit True event n rs st =
           (st\<lparr>checkout_error := Some msg, processing := False\<rparr>,
            [Post_create_payment_intent (ev_id event) n,
             Confirm_card_payment (client_secret data)])"
  using assms by (simp add: handleSubmit_def Let_def)

text \<open>
  C6 as stated fails on the code. A logged-in user opens the payment form for an event
  with free seats and submits; the card is declined. The card never gets
  \<^verbatim>\<open>setShowPayment(false)\<close> (only \<^verbatim>\<open>onSuccess\<close> and \<^verbatim>\<open>onCancel\<close> call it), so
  what is rendered afterwards is still the payment form, not seat selection.
\<close>

theorem card_failure_not_back_at_seat_selection:
  "card_response
      \<lparr>intent_response = Inr \<lparr>client_secret = ''pi_1_secret'', booking_id = 7\<rparr>,
       card_response = Inr (Card_error ''Your card was declined.''),
       confirm_response = Inr ()\<rparr> = Inr (Card_error ''Your card was declined.'')
   \<and> \<not> is_seat_selection
      (render (Some \<lparr>username = ''ann''\<rparr>)
         \<lparr>ev_id = 1, title = ''Jazz'', description = ''Trio'', venue = ''Hall'',
           date = ''2025-01-01'', price = 20, total_seats = 5, available_seats = 3,
           created_by = ''bob''\<rparr>
         True
         (fst (flow_run (Some \<lparr>username = ''ann''\<rparr>)
            \<lparr>ev_id = 1, title = ''Jazz'', description = ''Trio'', venue = ''Hall'',
              date = ''2025-01-01'', price = 20, total_seats = 5, available_seats = 3,
              created_by = ''bob''\<rparr>
            [Click_book,
             Submit_payment True
               \<lparr>intent_response = Inr \<lparr>client_secret = ''pi_1_secret'', booking_id = 7\<rparr>,
                card_response = Inr (Card_error ''Your card was declined.''),
                confirm_response = Inr ()\<rparr>]
            booking_flow_init)))
   \<and> is_payment_form
      (render (Some \<lparr>username = ''ann''\<rparr>)
         \<lparr>ev_id = 1, title = ''Jazz'', description = ''Trio'', venue = ''Hall'',
           date = ''2025-01-01'', price = 20, total_seats = 5, available_seats = 3,
           created_by = ''bob''\<rparr>
         True
         (fst (flow_run (Some \<lparr>username = ''ann''\<rparr>)
            \<lparr>ev_id = 1, title = ''Jazz'', description = ''Trio'', venue = ''Hall'',
              date = ''2025-01-01'', price = 20, total_seats = 5, available_seats = 3,
              created_by = ''bob''\<rparr>
            [Click_book,
             Submit_payment True
               \<lparr>intent_response = Inr \<lparr>client_secret = ''pi_1_secret'', booking_id = 7\<rparr>,
                card_response = Inr (Card_error ''Your card was declined.''),
                confirm_response = Inr ()\<rparr>]
            booking_flow_init)))"
  by (simp add: is_seat_selection_def is_payment_form_def render_def booking_flow_init_def
      event_card_init_def checkout_form_init_def handleBooking_def handleSubmit_def Let_def)

text \<open>
  C6, amended. When the intent request succeeds and the widget's card confirmation
  fails with message \<open>msg\<close>, \<open>handleSubmit\<close> stores exactly \<open>msg\<close> as the form's error,
  clears \<open>processing\<close>, and has issued the intent request and the widget call and nothing
  else: no \<^verbatim>\<open>POST /confirm-payment\<close>, no \<^verbatim>\<open>onSuccess\<close>. In the card with its open
  payment form, the card's state is untouched, so the payment form stays open; it shows
  the message verbatim (a non-empty one) and its Pay button is enabled again for a retry.
\<close>

theorem card_failure_stays_on_payment_form:
  assumes "intent_response rs = Inr data" "card_response rs = Inr (Card_error msg)"
  shows "handleSubmit True event n rs st =
           (st\<lparr>checkout_error := Some msg, processing := False\<rparr>,
            [Post_create_payment_intent (ev_id event) n,
             Confirm_card_payment (client_secret data)])
         \<and> \<not> list_ex is_post_confirm_payment (snd (handleSubmit True event n rs st))
         \<and> \<not> list_ex is_on_success (snd (handleSubmit True event n rs st))
         \<and> (showPayment (card_state fl) \<and> \<not> processing (form_state fl) \<longrightarrow>
              flow_step usr event (Submit_payment True rs) fl =
                (fl\<lparr>form_state := (form_state fl)\<lparr>checkout_error := Some msg, processing := False\<rparr>\<rparr>,
                 [Post_create_payment_intent (ev_id event) (seats (card_state fl)),
                  Confirm_card_payment (client_secret data)])
              \<and> render usr event True (fst (flow_step usr event (Submit_payment True rs) fl)) =
                  Payment_form \<lparr>error_message_shown = (if msg = [] then None else Some msg),
                                pay_disabled = False\<rparr>)"
proof -
  note submit = handleSubmit_card_error [OF assms]
  have "flow_step usr event (Submit_payment True rs) fl =
          (fl\<lparr>form_state := (form_state fl)\<lparr>checkout_error := Some msg, processing := False\<rparr>\<rparr>,
           [Post_create_payment_intent (ev_id event) (seats (card_state fl)),
            Confirm_card_payment (client_secret data)])"
    if "showPayment (card_state fl)" "\<not> processing (form_state fl)"
    using that by (simp add: submit)
  moreover have "render usr event True
      (fl\<lparr>form_state := (form_state fl)\<lparr>checkout_error := Some msg, processing := False\<rparr>\<rparr>) =
      Payment_form \<lparr>error_message_shown = (if msg = [] then None else Some msg),
                    pay_disabled = False\<rparr>"
    if "showPayment (card_state fl)"
    using that by (simp add: render_def)
  ultimately show ?thesis
    by (simp add: submit)
qed

text \<open>
  The amended C6 at the declined card: two seats of event 1, the payment form open.
\<close>

theorem card_failure_stays_on_payment_form_witness:
  "handleSubmit True
      \<lparr>ev_id = 1, title = ''Jazz'', description = ''Trio'', venue = ''Hall'',
        date = ''2025-01-01'', price = 20, total_seats = 5, available_seats = 3,
        created_by = ''bob''\<rparr>
      2
      \<lparr>intent_response = Inr \<lparr>client_secret = ''pi_1_secret'', booking_id = 7\<rparr>,
       card_response = Inr (Card_error ''Your card was declined.''),
       confirm_response = Inr ()\<rparr>
      checkout_form_init
    = (\<lparr>checkout_error = Some ''Your card was declined.'', processing = False\<rparr>,
       [Post_create_payment_intent 1 2, Confirm_card_payment ''pi_1_secret''])
   \<and> render (Some \<lparr>username = ''ann''\<rparr>)
        \<lparr>ev_id = 1, title = ''Jazz'', description = ''Trio'', venue = ''Hall'',
          date = ''2025-01-01'', price = 20, total_seats = 5, available_seats = 3,
          created_by = ''bob''\<rparr>
        True
        (fst (flow_step (Some \<lparr>username = ''ann''\<rparr>)
           \<lparr>ev_id = 1, title = ''Jazz'', description = ''Trio'', venue = ''Hall'',
             date = ''2025-01-01'', price = 20, total_seats = 5, available_seats = 3,
             created_by = ''bob''\<rparr>
           (Submit_payment True
              \<lparr>intent_response = Inr \<lparr>client_secret = ''pi_1_secret'', booking_id = 7\<rparr>,
               card_response = Inr (Card_error ''Your card was declined.''),
               confirm_response = Inr ()\<rparr>)
           \<lparr>card_state = \<lparr>booking = False, seats = 2, error = [], showPayment = True\<rparr>,
            form_state = checkout_form_init\<rparr>))
    = Payment_form \<lparr>error_message_shown = Some ''Your card was declined.'',
                    pay_disabled = False\<rparr>"
proof -
  let ?rs = "\<lparr>intent_response = Inr \<lparr>client_secret = ''pi_1_secret'', booking_id = 7\<rparr>,
       card_response = Inr (Card_error ''Your card was declined.''),
       confirm_response = Inr ()\<rparr>"
  let ?e = "\<lparr>ev_id = 1, title = ''Jazz'', description = ''Trio'', venue = ''Hall'',
        date = ''2025-01-01'', price = 20, total_seats = 5, available_seats = 3,
        created_by = ''bob''\<rparr>"
  let ?fl = "\<lparr>card_state = \<lparr>booking = False, seats = 2, error = [], showPayment = True\<rparr>,
            form_state = checkout_form_init\<rparr>"
  have intent: "intent_response ?rs = Inr \<lparr>client_secret = ''pi_1_secret'', booking_id = 7\<rparr>"
    and declined: "card_response ?rs = Inr (Card_error ''Your card was declined.'')"
    by simp_all
  have opened: "showPayment (card_state ?fl) \<and> \<not> processing (form_state ?fl)"
    by (simp add: checkout_form_init_def)
  note at = card_failure_stays_on_payment_form [OF intent declined,
      where event = ?e and n = 2 and st = checkout_form_init and fl = ?fl
        and usr = "Some \<lparr>username = ''ann''\<rparr>"]
  from at have "handleSubmit True ?e 2 ?rs checkout_form_init =
      (checkout_form_init\<lparr>checkout_error := Some ''Your card was declined.'',
                           processing := False\<rparr>,
       [Post_create_payment_intent (ev_id ?e) 2,
        Confirm_card_payment (client_secret \<lparr>client_secret = ''pi_1_secret'', booking_id = 7\<rparr>)])"
    by (rule conjunct1)
  then have submit: "handleSubmit True ?e 2 ?rs checkout_form_init =
      (\<lparr>checkout_error = Some ''Your card was declined.'', processing = False\<rparr>,
       [Post_create_payment_intent 1 2, Confirm_card_payment ''pi_1_secret''])"
    by (simp add: checkout_form_init_def)
  from at opened have "render (Some \<lparr>username = ''ann''\<rparr>) ?e True
      (fst (flow_step (Some \<lparr>username = ''ann''\<rparr>) ?e (Submit_payment True ?rs) ?fl)) =
      Payment_form \<lparr>error_message_shown =
                      (if ''Your card was declined.'' = [] then None
                       else Some ''Your card was declined.''),
                    pay_disabled = False\<rparr>"
    by blast
  then have "render (Some \<lparr>username = ''ann''\<rparr>) ?e True
      (fst (flow_step (Some \<lparr>username = ''ann''\<rparr>) ?e (Submit_payment True ?rs) ?fl)) =
      Payment_form \<lparr>error_message_shown = Some ''Your card was declined.'',
                    pay_disabled = False\<rparr>"
    by simp
  with submit show ?thesis
    by blast
qed

text \<open>
  C7. Without a session, \<open>handleBooking\<close> leaves \<open>showPayment\<close> as it was and only
  stores its message; it sends no request. From the card's initial state no sequence
  of user actions changes anything or causes any effect: the Book button is not
  rendered, the payment form is never shown, so no payment-intent request is issued,
  and what the card renders is the login prompt, without the booking section.
\<close>

theorem no_session_no_payment:
  "showPayment (handleBooking None c) = showPayment c
   \<and> error (handleBooking None c) = ''Please login to book''
   \<and> flow_run None event acts booking_flow_init = (booking_flow_init, [])
   \<and> \<not> showPayment (card_state (fst (flow_run None event acts booking_flow_init)))
   \<and> \<not> is_payment_form (render None event stripe_ready
          (fst (flow_run None event acts booking_flow_init)))
   \<and> render None event stripe_ready (fst (flow_run None event acts booking_flow_init)) =
       Event_card \<lparr>booking_section = False, book_disabled = False, error_text = None,
                   login_prompt = True, sold_out = (available_seats event = 0)\<rparr>"
proof -
  have closed: "\<not> showPayment (card_state booking_flow_init)"
    by (simp add: booking_flow_init_def event_card_init_def)
  have run: "flow_run None event acts booking_flow_init = (booking_flow_init, [])"
    using closed by (rule flow_run_no_user)
  have "render None event stripe_ready booking_flow_init =
       Event_card \<lparr>booking_section = False, book_disabled = False, error_text = None,
                   login_prompt = True, sold_out = (available_seats event = 0)\<rparr>"
    by (simp add: render_def booking_flow_init_def event_card_init_def)
  then show ?thesis
    using closed by (simp add: run handleBooking_def is_payment_form_def)
qed

text \<open>
  C7 on a run: with no session, the user tries the Book button, the seat input, the
  payment form's Pay and its Cancel, on an event with free seats.
\<close>

theorem no_session_no_payment_witness:
  "flow_run None
      \<lparr>ev_id = 1, title = ''Jazz'', description = ''Trio'', venue = ''Hall'',
        date = ''2025-01-01'', price = 20, total_seats = 5, available_seats = 3,
        created_by = ''bob''\<rparr>
      [Click_book, Change_seats 2,
       Submit_payment True
         \<lparr>intent_response = Inr \<lparr>client_secret = ''pi_1_secret'', booking_id = 7\<rparr>,
          card_response = Inr Card_paid, confirm_response = Inr ()\<rparr>,
       Cancel_payment]
      booking_flow_init = (booking_flow_init, [])
   \<and> render None
      \<lparr>ev_id = 1, title = ''Jazz'', description = ''Trio'', venue = ''Hall'',
        date = ''2025-01-01'', price = 20, total_seats = 5, available_seats = 3,
        created_by = ''bob''\<rparr>
      True booking_flow_init
    = Event_card \<lparr>booking_section = False, book_disabled = False, error_text = None,
                  login_prompt = True, sold_out = False\<rparr>"
proof -
  let ?e = "\<lparr>ev_id = 1, title = ''Jazz'', description = ''Trio'', venue = ''Hall'',
        date = ''2025-01-01'', price = 20, total_seats = 5, available_seats = 3,
        created_by = ''bob''\<rparr>"
  let ?acts = "[Click_book, Change_seats 2,
       Submit_payment True
         \<lparr>intent_response = Inr \<lparr>client_secret = ''pi_1_secret'', booking_id = 7\<rparr>,
          card_response = Inr Card_paid, confirm_response = Inr ()\<rparr>,
       Cancel_payment]"
  note at = no_session_no_payment [where event = ?e and acts = ?acts and stripe_ready = True]
  from at have run: "flow_run None ?e ?acts booking_flow_init = (booking_flow_init, [])"
    by blast
  from at have "render None ?e True (fst (flow_run None ?e ?acts booking_flow_init)) =
       Event_card \<lparr>booking_section = False, book_disabled = False, error_text = None,
                   login_prompt = True, sold_out = (available_seats ?e = 0)\<rparr>"
    by blast
  with run show ?thesis
    by simp
qed

section \<open>Properties of the socket service\<close>

lemma service_inv_nth:
  "service_inv svc \<longleftrightarrow>
     (case socket svc of
        None \<Rightarrow> (\<forall>i < length (heap svc). disconnected (heap svc ! i))
      | Some a \<Rightarrow> a < length (heap svc)
          \<and> (\<forall>i < length (heap svc). i \<noteq> a \<longrightarrow> disconnected (heap svc ! i)))"
proof (cases "socket svc")
  case None
  then show ?thesis by (simp add: service_inv_def list_all_length)
next
  case (Some a)
  have "(\<forall>i < length (heap svc). i \<noteq> a \<longrightarrow> disconnected (heap svc ! i))
        \<longleftrightarrow> list_all disconnected (take a (heap svc))
            \<and> list_all disconnected (drop (Suc a) (heap svc))" (is "?L \<longleftrightarrow> ?R")
    if a: "a < length (heap svc)"
  proof
    assume l: ?L
    have "list_all disconnected (take a (heap svc))"
      using l a by (simp add: list_all_length)
    moreover have "list_all disconnected (drop (Suc a) (heap svc))"
      using l a by (simp add: list_all_length)
    ultimately show ?R ..
  next
    assume r: ?R
    show ?L
    proof (intro allI impI)
      fix i assume i: "i < length (heap svc)" "i \<noteq> a"
      show "disconnected (heap svc ! i)"
      proof (cases "i < a")
        case True
        with r a have "disconnected (take a (heap svc) ! i)"
          by (simp add: list_all_length)
        with True show ?thesis by simp
      next
        case False
        with i have "Suc a \<le> i" by simp
        then obtain j where j: "i = Suc a + j"
          using le_Suc_ex by blast
        with i have "j < length (drop (Suc a) (heap svc))" by simp
        with r have "disconnected (drop (Suc a) (heap svc) ! j)"
          by (simp add: list_all_length)
        with j a show ?thesis by simp
      qed
    qed
  qed
  with Some show ?thesis by (auto simp: service_inv_def)
qed

lemma service_inv_init: "service_inv socket_service_init"
  by (simp add: service_inv_def socket_service_init_def)

lemma on_socket_simps:
  "socket (on_socket a f svc) = socket svc"
  "length (heap (on_socket a f svc)) = length (heap svc)"
  "listeners (on_socket a f svc) = listeners svc"
  by (simp_all add: on_socket_def)

lemma on_socket_nth:
  "i < length (heap svc) \<Longrightarrow>
   heap (on_socket a f svc) ! i = (if i = a then f (heap svc ! i) else heap svc ! i)"
  by (simp add: on_socket_def nth_list_update)

lemma service_inv_on_socket:
  assumes "service_inv svc" "socket svc = Some a" "\<And>s. disconnected (f s) = disconnected s"
  shows "service_inv (on_socket a f svc)"
  using assms by (simp add: service_inv_nth on_socket_simps on_socket_nth)

lemma service_inv_connect: "service_inv svc \<Longrightarrow> service_inv (snd (connect svc))"
  by (cases "socket svc")
     (auto simp: service_inv_nth connect_def Let_def nth_append)

lemma service_inv_disconnect: "service_inv svc \<Longrightarrow> service_inv (disconnect svc)"
  by (cases "socket svc")
     (auto simp: service_inv_nth disconnect_def on_socket_simps on_socket_nth
        socket_disconnect_def)

lemma service_inv_step:
  assumes "service_inv svc"
  shows "service_inv (service_step socket_off c svc)"
proof (cases c)
  case Connect
  with assms show ?thesis by (simp add: service_inv_connect)
next
  case Disconnect
  with assms show ?thesis by (simp add: service_inv_disconnect)
next
  case (Call_authenticate name)
  with assms show ?thesis
    by (cases "socket svc")
       (simp_all add: authenticate_def service_inv_on_socket socket_emit_def)
next
  case (Call_joinEventRoom e)
  with assms show ?thesis
    by (cases "socket svc")
       (simp_all add: joinEventRoom_def service_inv_on_socket socket_emit_def)
next
  case (Call_leaveEventRoom e)
  with assms show ?thesis
    by (cases "socket svc")
       (simp_all add: leaveEventRoom_def service_inv_on_socket socket_emit_def)
next
  case (On ev cb)
  with assms show ?thesis
    by (cases "socket svc") (simp_all add: on_def service_inv_on_socket socket_on_def)
next
  case (Off ev cb)
  with assms show ?thesis
    by (cases "socket svc") (simp_all add: off_def service_inv_on_socket)
qed

lemma service_inv_run:
  "service_inv svc \<Longrightarrow> service_inv (service_run socket_off calls svc)"
  unfolding service_run_def
  by (induction calls arbitrary: svc) (simp_all add: service_inv_step)

lemma service_inv_connections:
  assumes "service_inv svc"
  shows "connections svc =
           (case socket svc of
              None \<Rightarrow> []
            | Some a \<Rightarrow> if disconnected (heap svc ! a) then [] else [heap svc ! a])"
proof -
  have none: "filter (\<lambda>s. \<not> disconnected s) xs = []" if "list_all disconnected xs"
    for xs :: "'a socket_object list"
    using that by (induction xs) auto
  show ?thesis
  proof (cases "socket svc")
    case None
    with assms have "list_all disconnected (heap svc)"
      by (simp add: service_inv_def)
    with None show ?thesis by (simp add: connections_def none)
  next
    case (Some a)
    with assms have a: "a < length (heap svc)"
      and before: "list_all disconnected (take a (heap svc))"
      and after: "list_all disconnected (drop (Suc a) (heap svc))"
      by (simp_all add: service_inv_def)
    from a have "heap svc = take a (heap svc) @ heap svc ! a # drop (Suc a) (heap svc)"
      by (rule id_take_nth_drop)
    then have "connections svc =
        filter (\<lambda>s. \<not> disconnected s)
          (take a (heap svc) @ heap svc ! a # drop (Suc a) (heap svc))"
      by (simp add: connections_def)
    also have "\<dots> = (if disconnected (heap svc ! a) then [] else [heap svc ! a])"
      by (simp add: none [OF before] none [OF after])
    finally show ?thesis using Some by simp
  qed
qed

lemma connections_at_most_one: "service_inv svc \<Longrightarrow> length (connections svc) \<le> 1"
  by (simp add: service_inv_connections split: option.split)

lemma connect_fresh:
  assumes "socket svc = None"
  shows "connect svc =
           (length (heap svc),
            svc\<lparr>heap := heap svc @
                   [\<lparr>handlers = [(''connect'', Log_connected),
                                 (''disconnect'', Log_disconnected),
                                 (''error'', Log_error)],
                     emitted = [], disconnected = False\<rparr>],
                socket := Some (length (heap svc))\<rparr>)"
  using assms by (simp add: connect_def Let_def socket_on_def io_def)

lemma invoked_after_fresh_connect:
  assumes "socket svc = None" "service_inv svc"
  shows "set (invoked ev (snd (connect svc))) \<subseteq> {Log_connected, Log_disconnected, Log_error}"
proof -
  from assms(2) have "service_inv (snd (connect svc))"
    by (rule service_inv_connect)
  then have "connections (snd (connect svc)) =
      [\<lparr>handlers = [(''connect'', Log_connected), (''disconnect'', Log_disconnected),
                    (''error'', Log_error)],
        emitted = [], disconnected = False\<rparr>]"
    by (simp add: service_inv_connections connect_fresh [OF assms(1)])
  then show ?thesis
    by (auto simp: invoked_def)
qed

text \<open>
  C9. While \<^verbatim>\<open>this.socket\<close> is set, \<open>connect\<close> returns that socket and leaves the
  service exactly as it was: no socket object is created, and the existing one keeps
  its handlers. Calling \<open>connect\<close> twice is calling it once. In every state the service
  reaches from its construction, through any calls of its methods, at most one
  connection exists.
\<close>

theorem connect_idempotent:
  "(socket svc = Some a \<longrightarrow> connect svc = (a, svc))
   \<and> connect (snd (connect svc)) = connect svc
   \<and> length (connections (service_run socket_off calls socket_service_init)) \<le> 1"
proof -
  have "connect svc = (a, svc)" if "socket svc = Some a"
    using that by (simp add: connect_def)
  moreover have "connect (snd (connect svc)) = connect svc"
    by (cases "socket svc") (simp_all add: connect_def Let_def)
  moreover have "length (connections (service_run socket_off calls socket_service_init)) \<le> 1"
    by (intro connections_at_most_one service_inv_run service_inv_init)
  ultimately show ?thesis by blast
qed

text \<open>
  C9 on a run: the service is connected and a handler is subscribed; a second
  \<open>connect\<close> returns the same socket and changes nothing.
\<close>

theorem connect_idempotent_witness:
  "socket (service_run (\<lambda>ev cb hs. hs) [Connect, On ''new_event'' (App_handler ''list'')]
      socket_service_init) = Some 0
   \<and> connect (service_run (\<lambda>ev cb hs. hs) [Connect, On ''new_event'' (App_handler ''list'')]
      socket_service_init)
     = (0, service_run (\<lambda>ev cb hs. hs) [Connect, On ''new_event'' (App_handler ''list'')]
          socket_service_init)
   \<and> length (heap (snd (connect
        (service_run (\<lambda>ev cb hs. hs) [Connect, On ''new_event'' (App_handler ''list'')]
          socket_service_init)))) = 1"
proof -
  let ?svc = "service_run (\<lambda>ev cb hs. hs) [Connect, On ''new_event'' (App_handler ''list'')]
      socket_service_init"
  have connected: "socket ?svc = Some 0"
    by (simp add: service_run_def socket_service_init_def connect_def Let_def on_def
        on_socket_def)
  with connect_idempotent [of ?svc 0] have same: "connect ?svc = (0, ?svc)"
    by blast
  have "length (heap ?svc) = 1"
    by (simp add: service_run_def socket_service_init_def connect_def Let_def on_def
        on_socket_def)
  with connected same show ?thesis
    by simp
qed

text \<open>
  C10. While \<^verbatim>\<open>this.socket\<close> is null (as it is in the constructed service and after
  every \<open>disconnect\<close>), \<open>on\<close> and \<open>off\<close> return the service unchanged, for every event
  name and callback: nothing is registered or removed, and neither has a raising
  branch. Whatever is called afterwards, the service goes through the states it would
  have gone through without the subscription. In particular, in a state the service can
  reach, a \<open>connect\<close> after such a subscription gives one connection, whose only
  handlers are the three logging ones: no inbound event invokes the subscribed
  application handler.
\<close>

theorem subscribe_without_socket_noop:
  assumes "socket svc = None"
  shows "on ev cb svc = svc
         \<and> off socket_off ev cbo svc = svc
         \<and> service_run socket_off calls (on ev cb svc) = service_run socket_off calls svc
         \<and> (service_inv svc \<longrightarrow>
              set (invoked ev' (snd (connect (on ev cb svc))))
                \<subseteq> {Log_connected, Log_disconnected, Log_error}
              \<and> App_handler h \<notin> set (invoked ev' (snd (connect (on ev (App_handler h) svc)))))
         \<and> socket (socket_service_init :: 'a socket_service) = None
         \<and> socket (disconnect svc') = None
         \<and> service_inv (service_run socket_off calls' (socket_service_init :: 'a socket_service))"
proof -
  have noop: "on e c svc = svc" for e and c :: "'a callback"
    using assms by (simp add: on_def)
  have "off socket_off ev cbo svc = svc"
    using assms by (simp add: off_def)
  moreover have "set (invoked ev' (snd (connect svc)))
      \<subseteq> {Log_connected, Log_disconnected, Log_error}" if "service_inv svc"
    using assms that by (rule invoked_after_fresh_connect)
  then have "service_inv svc \<longrightarrow>
      set (invoked ev' (snd (connect (on ev cb svc))))
        \<subseteq> {Log_connected, Log_disconnected, Log_error}
      \<and> App_handler h \<notin> set (invoked ev' (snd (connect (on ev (App_handler h) svc))))"
    by (auto simp: noop)
  moreover have "socket (disconnect svc') = None"
    by (cases "socket svc'") (simp_all add: disconnect_def)
  moreover have "socket (socket_service_init :: 'a socket_service) = None"
    by (simp add: socket_service_init_def)
  moreover have
    "service_inv (service_run socket_off calls' (socket_service_init :: 'a socket_service))"
    by (intro service_inv_run service_inv_init)
  ultimately show ?thesis
    by (simp add: noop)
qed

text \<open>
  C10 on two runs. Before the first \<open>connect\<close>: the events list subscribes, then the
  service connects; an inbound \<^verbatim>\<open>new_event\<close> invokes nothing. After a
  \<open>disconnect\<close>: the handler table of the closed socket and the service are what they
  were before the \<open>on\<close> and \<open>off\<close> calls.
\<close>

theorem subscribe_without_socket_noop_witness:
  "socket (socket_service_init :: string socket_service) = None
   \<and> service_inv (socket_service_init :: string socket_service)
   \<and> on ''new_event'' (App_handler ''list'') (socket_service_init :: string socket_service)
       = socket_service_init
   \<and> App_handler ''list'' \<notin> set (invoked ''new_event''
       (snd (connect (on ''new_event'' (App_handler ''list'')
          (socket_service_init :: string socket_service)))))
   \<and> invoked ''new_event''
       (service_run (\<lambda>ev cb hs. hs) [On ''new_event'' (App_handler ''list''), Connect]
          socket_service_init) = []
   \<and> service_run (\<lambda>ev cb hs. hs)
       [Connect, Disconnect, On ''new_event'' (App_handler ''list''), Off ''new_event'' None]
       socket_service_init
     = service_run (\<lambda>ev cb hs. hs) [Connect, Disconnect]
         (socket_service_init :: string socket_service)"
proof -
  let ?init = "socket_service_init :: string socket_service"
  let ?off = "\<lambda>(ev :: string) (cb :: string callback option)
                (hs :: (string \<times> string callback) list). hs"
  have fresh: "socket ?init = None"
    by (simp add: socket_service_init_def)
  have inv: "service_inv ?init"
    by (simp add: service_inv_def socket_service_init_def)
  note at = subscribe_without_socket_noop [OF fresh,
      where ev = "''new_event''" and cb = "App_handler ''list''" and h = "''list''"
        and ev' = "''new_event''"]
  from at have noop: "on ''new_event'' (App_handler ''list'') ?init = ?init"
    by blast
  from at inv have silent: "App_handler ''list'' \<notin> set (invoked ''new_event''
       (snd (connect (on ''new_event'' (App_handler ''list'') ?init))))"
    by blast
  have "invoked ''new_event''
       (service_run ?off [On ''new_event'' (App_handler ''list''), Connect] ?init) = []"
    by (simp add: service_run_def noop)
       (simp add: socket_service_init_def connect_def Let_def invoked_def connections_def
          socket_on_def io_def)
  moreover have "service_run ?off
       [Connect, Disconnect, On ''new_event'' (App_handler ''list''), Off ''new_event'' None]
       ?init = service_run ?off [Connect, Disconnect] ?init"
    by (simp add: service_run_def socket_service_init_def connect_def Let_def disconnect_def
        on_socket_def on_def off_def)
  ultimately show ?thesis
    using fresh inv noop silent by simp
qed

end
